theory Spec2Isabelle
  imports
    Main
    "HOL-Library.Char_ord"
    "HOL-Library.List_Lexorder"
    "HOL-Library.Product_Lexorder"
begin

section \<open>Data model\<close>

text \<open>
  The engine lives in two SQL migrations (the initial daily schema and the weekly
  migration that replaces its functions) and in a few TypeScript helpers.

  A SQL \<^verbatim>\<open>date\<close> is its day number, counted from 1970-01-01 (day 0, a Thursday); a
  nullable column is an \<open>option\<close>, \<open>None\<close> being NULL. A SQL \<^verbatim>\<open>integer\<close> is a
  mathematical integer together with the range of the type: an addition that leaves
  the 32 bits raises \<^verbatim>\<open>numeric_value_out_of_range\<close> (SQLSTATE 22003), it does not wrap.
\<close>

type_synonym uuid = nat
type_synonym date = int
type_synonym timestamptz = int

text \<open>
  A row of \<^verbatim>\<open>screen_time_logs\<close>. The weekly migration renames the column \<^verbatim>\<open>date\<close>
  to \<^verbatim>\<open>week_start_date\<close>; both are NOT NULL.
\<close>

record screen_time_log =
  user_id :: uuid
  week_start_date :: date
  minutes :: int
  deleted_at :: "timestamptz option"

text \<open>
  A row of \<^verbatim>\<open>user_streaks\<close>; \<^verbatim>\<open>user_id\<close> is UNIQUE, so the table is a map from
  the user to the row. The weekly migration renames \<^verbatim>\<open>last_log_date\<close> to
  \<^verbatim>\<open>last_log_week_start\<close>.
\<close>

record user_streak =
  current_streak :: int
  longest_streak :: int
  last_log_week_start :: "date option"

section \<open>Streak engine: the trigger function \<^verbatim>\<open>update_user_streak\<close>\<close>

text \<open>The errors that the modelled statements raise.\<close>

datatype error = ValidationError | Negative_limit | Numeric_value_out_of_range

text \<open>
  Addition on \<^verbatim>\<open>integer\<close> (\<^verbatim>\<open>int4pl\<close>): the sum, or the error when it does not fit
  into 32 bits.
\<close>

definition int4pl :: "int \<Rightarrow> int \<Rightarrow> error + int" where
  "int4pl a b =
     (if a + b < - 2147483648 \<or> 2147483647 < a + b then Inl Numeric_value_out_of_range
      else Inr (a + b))"

text \<open>
  The branch of the trigger body that an insert runs through: no streak row was found
  (\<open>Created\<close>), the outer guard fails (\<open>Not_newer\<close>), or one of the three arms of
  the inner IF / ELSIF / ELSE runs.
\<close>

datatype streak_branch = Created | Not_newer | Continues | Same_period | Broken

text \<open>\<^verbatim>\<open>GREATEST(NEW.week_start_date, v_last_week)\<close>: PostgreSQL ignores a NULL argument.\<close>

fun greatest :: "date \<Rightarrow> date option \<Rightarrow> date" where
  "greatest d None = d"
| "greatest d (Some l) = max d l"

text \<open>
  \<^verbatim>\<open>update_user_streak\<close> of the weekly migration. It returns the new
  \<^verbatim>\<open>user_streaks\<close> table together with the branch taken, or the error that
  \<open>v_current_streak + 1\<close> raises. \<open>v_last_week IS NULL OR NEW.week_start_date >
  v_last_week\<close> is true when the stored value is NULL, and the comparison of a date
  with \<open>date + INTERVAL '7 days'\<close> (a timestamp at midnight) is equality of day
  numbers.
\<close>

definition update_user_streak_path ::
  "(uuid \<rightharpoonup> user_streak) \<Rightarrow> screen_time_log \<Rightarrow>
     error + (uuid \<rightharpoonup> user_streak) \<times> streak_branch" where
  "update_user_streak_path user_streaks NEW =
    (case user_streaks (user_id NEW) of
       None \<Rightarrow>
         Inr (user_streaks(user_id NEW \<mapsto>
                \<lparr>current_streak = 1, longest_streak = 1,
                 last_log_week_start = Some (week_start_date NEW)\<rparr>), Created)
     | Some v_streak_record \<Rightarrow>
         (let v_last_week = last_log_week_start v_streak_record;
              v_current_streak = current_streak v_streak_record;
              v_longest_streak = longest_streak v_streak_record
          in
            if (case v_last_week of None \<Rightarrow> True | Some l \<Rightarrow> week_start_date NEW > l) then
              (case
                 (if (case v_last_week of None \<Rightarrow> True
                      | Some l \<Rightarrow> week_start_date NEW = l + 7)
                  then (case int4pl v_current_streak 1 of
                          Inl e \<Rightarrow> Inl e
                        | Inr n \<Rightarrow> Inr (n, Continues))
                  else if (case v_last_week of None \<Rightarrow> False
                           | Some l \<Rightarrow> week_start_date NEW = l)
                  then Inr (v_current_streak, Same_period)
                  else Inr (1, Broken))
               of
                 Inl e \<Rightarrow> Inl e
               | Inr (v_current_streak, branch) \<Rightarrow>
                   (let v_longest_streak =
                          (if v_current_streak > v_longest_streak then v_current_streak
                           else v_longest_streak)
                    in Inr (user_streaks(user_id NEW \<mapsto>
                              v_streak_record\<lparr>current_streak := v_current_streak,
                                longest_streak := v_longest_streak,
                                last_log_week_start :=
                                  Some (greatest (week_start_date NEW) v_last_week)\<rparr>), branch)))
            else Inr (user_streaks, Not_newer)))"

definition update_user_streak ::
  "(uuid \<rightharpoonup> user_streak) \<Rightarrow> screen_time_log \<Rightarrow> error + (uuid \<rightharpoonup> user_streak)" where
  "update_user_streak user_streaks NEW =
     (case update_user_streak_path user_streaks NEW of
        Inl e \<Rightarrow> Inl e
      | Inr (tbl, branch) \<Rightarrow> Inr tbl)"

text \<open>
  The same function as the initial (daily) schema defines it: the period is one day,
  \<open>NEW.date = v_last_date + INTERVAL '1 day'\<close>.
\<close>

definition update_user_streak_daily_path ::
  "(uuid \<rightharpoonup> user_streak) \<Rightarrow> screen_time_log \<Rightarrow>
     error + (uuid \<rightharpoonup> user_streak) \<times> streak_branch" where
  "update_user_streak_daily_path user_streaks NEW =
    (case user_streaks (user_id NEW) of
       None \<Rightarrow>
         Inr (user_streaks(user_id NEW \<mapsto>
                \<lparr>current_streak = 1, longest_streak = 1,
                 last_log_week_start = Some (week_start_date NEW)\<rparr>), Created)
     | Some v_streak_record \<Rightarrow>
         (let v_last_date = last_log_week_start v_streak_record;
              v_current_streak = current_streak v_streak_record;
              v_longest_streak = longest_streak v_streak_record
          in
            if (case v_last_date of None \<Rightarrow> True | Some l \<Rightarrow> week_start_date NEW > l) then
              (case
                 (if (case v_last_date of None \<Rightarrow> True
                      | Some l \<Rightarrow> week_start_date NEW = l + 1)
                  then (case int4pl v_current_streak 1 of
                          Inl e \<Rightarrow> Inl e
                        | Inr n \<Rightarrow> Inr (n, Continues))
                  else if (case v_last_date of None \<Rightarrow> False
                           | Some l \<Rightarrow> week_start_date NEW = l)
                  then Inr (v_current_streak, Same_period)
                  else Inr (1, Broken))
               of
                 Inl e \<Rightarrow> Inl e
               | Inr (v_current_streak, branch) \<Rightarrow>
                   (let v_longest_streak =
                          (if v_current_streak > v_longest_streak then v_current_streak
                           else v_longest_streak)
                    in Inr (user_streaks(user_id NEW \<mapsto>
                              v_streak_record\<lparr>current_streak := v_current_streak,
                                longest_streak := v_longest_streak,
                                last_log_week_start :=
                                  Some (greatest (week_start_date NEW) v_last_date)\<rparr>), branch)))
            else Inr (user_streaks, Not_newer)))"


text \<open>
  The trigger \<^verbatim>\<open>calculate_streak_on_log\<close>: AFTER INSERT, FOR EACH ROW, WHEN
  \<open>NEW.deleted_at IS NULL\<close>.
\<close>

definition calculate_streak_on_log ::
  "(uuid \<rightharpoonup> user_streak) \<Rightarrow> screen_time_log \<Rightarrow> error + (uuid \<rightharpoonup> user_streak)" where
  "calculate_streak_on_log user_streaks NEW =
     (if deleted_at NEW = None then update_user_streak user_streaks NEW
      else Inr user_streaks)"

text \<open>
  The effect of one INSERT statement on \<^verbatim>\<open>user_streaks\<close>: an error of the trigger
  aborts the statement, the row is not inserted and the table stays as it was.
\<close>

definition insert_screen_time_log ::
  "(uuid \<rightharpoonup> user_streak) \<Rightarrow> screen_time_log \<Rightarrow> (uuid \<rightharpoonup> user_streak)" where
  "insert_screen_time_log user_streaks NEW =
     (case calculate_streak_on_log user_streaks NEW of
        Inl e \<Rightarrow> user_streaks
      | Inr tbl \<Rightarrow> tbl)"

text \<open>A sequence of inserts fires the trigger once per row, in order.\<close>

definition insert_all ::
  "(uuid \<rightharpoonup> user_streak) \<Rightarrow> screen_time_log list \<Rightarrow> (uuid \<rightharpoonup> user_streak)" where
  "insert_all user_streaks rows = foldl insert_screen_time_log user_streaks rows"

section \<open>Calendar arithmetic of the SQL side\<close>

text \<open>
  \<^verbatim>\<open>EXTRACT(DOW FROM d)\<close>: the day of the week, 0 for Sunday. Day 0 (1970-01-01) is a
  Thursday.
\<close>

definition extract_dow :: "date \<Rightarrow> int" where
  "extract_dow d = (d + 4) mod 7"

text \<open>
  The expression \<^verbatim>\<open>d - (EXTRACT(DOW FROM d)::integer || ' days')::interval\<close>, which the
  weekly migration uses for the start of the week of \<open>d\<close>.
\<close>

definition week_start_of :: "date \<Rightarrow> date" where
  "week_start_of d = d - extract_dow d"

text \<open>
  The day number of a date literal of the proleptic Gregorian calendar, by the usual
  era / year-of-era / day-of-year decomposition (years start in March).
\<close>

definition days_from_civil :: "int \<Rightarrow> int \<Rightarrow> int \<Rightarrow> date" where
  "days_from_civil y m d =
    (let y' = (if m \<le> 2 then y - 1 else y);
         era = y' div 400;
         yoe = y' - era * 400;
         doy = (153 * (if m > 2 then m - 3 else m + 9) + 2) div 5 + d - 1;
         doe = yoe * 365 + yoe div 4 - yoe div 100 + doy
     in era * 146097 + doe - 719468)"

section \<open>Leaderboard: \<^verbatim>\<open>get_leaderboard\<close> of the weekly migration\<close>

text \<open>A row of \<^verbatim>\<open>users\<close> (\<^verbatim>\<open>id\<close> is the primary key).\<close>

record user =
  u_id :: uuid
  u_display_name :: string
  u_avatar_url :: "string option"
  u_deleted_at :: "timestamptz option"

text \<open>
  The tables the query reads. \<^verbatim>\<open>user_settings.user_id\<close> and
  \<^verbatim>\<open>user_streaks.user_id\<close> are UNIQUE NOT NULL, so that a LEFT JOIN on them finds at
  most one row: the tables are maps, \<open>user_settings\<close> to the NOT NULL column
  \<^verbatim>\<open>show_on_leaderboard\<close> of the row.
\<close>

record database =
  users :: "user list"
  screen_time_logs :: "screen_time_log list"
  user_settings :: "uuid \<rightharpoonup> bool"
  user_streaks :: "uuid \<rightharpoonup> user_streak"

text \<open>A row of the result table.\<close>

record leaderboard_entry =
  lb_user_id :: uuid
  lb_display_name :: string
  lb_avatar_url :: "string option"
  total_minutes :: int
  lb_current_streak :: int
  rank :: int

text \<open>The \<^verbatim>\<open>CASE period\<close> statement that sets \<^verbatim>\<open>start_date\<close>.\<close>

definition get_leaderboard_start_date :: "date \<Rightarrow> string \<Rightarrow> date" where
  "get_leaderboard_start_date CURRENT_DATE period =
    (if period = ''daily'' then CURRENT_DATE - extract_dow CURRENT_DATE
     else if period = ''weekly'' then CURRENT_DATE - extract_dow CURRENT_DATE - 21
     else if period = ''monthly'' then CURRENT_DATE - 84
     else if period = ''all_time'' then days_from_civil 1900 1 1
     else CURRENT_DATE - 28)"

text \<open>
  The rows of \<^verbatim>\<open>screen_time_logs stl\<close> that the first LEFT JOIN attaches to the user
  \<open>u\<close>: \<^verbatim>\<open>stl.user_id = u.id AND stl.week_start_date >= start_date AND stl.deleted_at
  IS NULL\<close>. When there is none, the join keeps \<open>u\<close> with a NULL \<open>stl\<close>.
\<close>

definition joined_logs :: "screen_time_log list \<Rightarrow> date \<Rightarrow> user \<Rightarrow> screen_time_log list" where
  "joined_logs stl start_date u =
     filter (\<lambda>l. user_id l = u_id u \<and> week_start_date l \<ge> start_date \<and> deleted_at l = None) stl"

text \<open>
  \<^verbatim>\<open>SUM(stl.minutes)\<close> over the group of \<open>u\<close>: NULL when the group holds only the
  NULL-extended row.
\<close>

definition SUM_minutes :: "screen_time_log list \<Rightarrow> int option" where
  "SUM_minutes ls = (if ls = [] then None else Some (sum_list (map minutes ls)))"

definition COALESCE :: "int option \<Rightarrow> int \<Rightarrow> int" where
  "COALESCE v d = (case v of None \<Rightarrow> d | Some x \<Rightarrow> x)"

definition user_total :: "database \<Rightarrow> date \<Rightarrow> user \<Rightarrow> int" where
  "user_total db start_date u =
     COALESCE (SUM_minutes (joined_logs (screen_time_logs db) start_date u)) 0"

text \<open>
  The WHERE clause: \<^verbatim>\<open>u.deleted_at IS NULL AND (ust.show_on_leaderboard = true OR
  ust.show_on_leaderboard IS NULL)\<close>; without a settings row the column is NULL.
\<close>

definition where_clause :: "database \<Rightarrow> user \<Rightarrow> bool" where
  "where_clause db u =
     (u_deleted_at u = None \<and>
      (case user_settings db (u_id u) of None \<Rightarrow> True | Some show_on_leaderboard \<Rightarrow> show_on_leaderboard))"

text \<open>
  The groups that pass \<^verbatim>\<open>HAVING COALESCE(SUM(stl.minutes), 0) > 0\<close>, one per user row
  (the grouping columns contain the primary key), each with its total.
\<close>

definition having_groups :: "database \<Rightarrow> date \<Rightarrow> (user \<times> int) list" where
  "having_groups db start_date =
     filter (\<lambda>(u, t). t > 0)
       (map (\<lambda>u. (u, user_total db start_date u)) (filter (where_clause db) (users db)))"

text \<open>
  \<^verbatim>\<open>RANK() OVER (ORDER BY COALESCE(SUM(stl.minutes), 0) DESC)\<close>: the row number, in the
  window's order, of the first row of the peer group of the current row. The window is
  the list of the totals of all groups.
\<close>

definition RANK :: "int list \<Rightarrow> int \<Rightarrow> int" where
  "RANK totals t = 1 + int (length (takeWhile (\<lambda>x. x \<noteq> t) (rev (sort totals))))"

text \<open>
  The select list, for the group of the user \<open>u\<close> with the total \<open>t\<close>;
  \<^verbatim>\<open>COALESCE(us.current_streak, 0)\<close> is 0 for a user without a streak row.
\<close>

definition select_row :: "database \<Rightarrow> int list \<Rightarrow> user \<times> int \<Rightarrow> leaderboard_entry" where
  "select_row db totals = (\<lambda>(u, t).
     \<lparr>lb_user_id = u_id u,
      lb_display_name = u_display_name u,
      lb_avatar_url = u_avatar_url u,
      total_minutes = t,
      lb_current_streak = COALESCE (map_option current_streak (user_streaks db (u_id u))) 0,
      rank = RANK totals t\<rparr>)"

text \<open>
  A stable insertion sort by a given order, for ORDER BY with an order that is a
  parameter.
\<close>

fun insort_by :: "('a \<Rightarrow> 'a \<Rightarrow> bool) \<Rightarrow> 'a \<Rightarrow> 'a list \<Rightarrow> 'a list" where
  "insort_by le x [] = [x]"
| "insort_by le x (y # ys) = (if le x y then x # y # ys else y # insort_by le x ys)"

definition sort_by :: "('a \<Rightarrow> 'a \<Rightarrow> bool) \<Rightarrow> 'a list \<Rightarrow> 'a list" where
  "sort_by le xs = foldr (insort_by le) xs []"

text \<open>
  \<^verbatim>\<open>ORDER BY total_minutes DESC, u.display_name ASC\<close>: the row \<open>a\<close> may stand before
  the row \<open>b\<close>. The column has no COLLATE clause, so that names are compared in the
  collation of the database; its order \<open>name_le\<close> is a parameter.
\<close>

definition order_by_le ::
  "(string \<Rightarrow> string \<Rightarrow> bool) \<Rightarrow> leaderboard_entry \<Rightarrow> leaderboard_entry \<Rightarrow> bool" where
  "order_by_le name_le a b =
     (total_minutes b < total_minutes a \<or>
      (total_minutes a = total_minutes b \<and> name_le (lb_display_name a) (lb_display_name b)))"

text \<open>
  The query without its LIMIT: the select list over the groups, then the ORDER BY.
  The sort is stable, which fixes the order that SQL leaves open among rows equal in
  both keys.
\<close>

definition leaderboard_rows ::
  "(string \<Rightarrow> string \<Rightarrow> bool) \<Rightarrow> database \<Rightarrow> date \<Rightarrow> leaderboard_entry list" where
  "leaderboard_rows name_le db start_date =
    (let groups = having_groups db start_date
     in sort_by (order_by_le name_le) (map (select_row db (map snd groups)) groups))"

text \<open>
  \<^verbatim>\<open>get_leaderboard(period, limit_count)\<close>, read on the day \<open>CURRENT_DATE\<close> in a
  database whose collation orders texts by \<open>name_le\<close>. PostgreSQL refuses a negative
  LIMIT.
\<close>

definition get_leaderboard ::
  "(string \<Rightarrow> string \<Rightarrow> bool) \<Rightarrow> database \<Rightarrow> date \<Rightarrow> string \<Rightarrow> int \<Rightarrow>
     error + leaderboard_entry list" where
  "get_leaderboard name_le db CURRENT_DATE period limit_count =
    (let start_date = get_leaderboard_start_date CURRENT_DATE period
     in if limit_count < 0 then Inl Negative_limit
        else Inr (take (nat limit_count) (leaderboard_rows name_le db start_date)))"

text \<open>
  The aggregation as the specification words it: the sum of the minutes of the user's
  non-deleted entries whose period start lies in the closed range from \<open>start\<close> to
  \<open>now\<close>.
\<close>

definition aggregate_spec :: "screen_time_log list \<Rightarrow> date \<Rightarrow> date \<Rightarrow> uuid \<Rightarrow> int" where
  "aggregate_spec entries start now uid =
     sum_list (map minutes
       (filter (\<lambda>e. user_id e = uid \<and> deleted_at e = None \<and>
                    start \<le> week_start_date e \<and> week_start_date e \<le> now) entries))"

section \<open>Entry validation\<close>

text \<open>
  The CHECK constraint \<^verbatim>\<open>screen_time_logs_minutes_check\<close> of the weekly migration.
\<close>

definition screen_time_logs_minutes_check :: "int \<Rightarrow> bool" where
  "screen_time_logs_minutes_check m = (m \<ge> 0 \<and> m \<le> 10080)"

text \<open>
  \<^verbatim>\<open>handleSubmit\<close> of the log form for a signed-in user, from the two
  \<^verbatim>\<open>parseInt\<close> results (\<open>None\<close> is NaN). When its test fails, the form sets its
  error and returns before any write: \<open>Inl ValidationError\<close>. Otherwise it sends
  the insert or update with \<^verbatim>\<open>minutes: totalMinutes\<close>: \<open>Inr totalMinutes\<close> is the
  value sent, and what the table answers to the request is not part of the function.
  A comparison with NaN is false, so that NaN passes the test.
\<close>

definition totalMinutes :: "int option \<Rightarrow> int option \<Rightarrow> int option" where
  "totalMinutes hours mins =
     (case (hours, mins) of (Some h, Some m) \<Rightarrow> Some (h * 60 + m) | _ \<Rightarrow> None)"

definition handleSubmit :: "int option \<Rightarrow> int option \<Rightarrow> error + int option" where
  "handleSubmit hours mins =
    (if (case totalMinutes hours mins of None \<Rightarrow> False | Some n \<Rightarrow> n \<le> 0 \<or> n > 1440)
     then Inl ValidationError
     else Inr (totalMinutes hours mins))"

section \<open>Week utilities of the client\<close>

text \<open>
  A JavaScript \<^verbatim>\<open>Date\<close> holds a time value: the milliseconds since the epoch in UTC,
  or NaN for an invalid date (\<open>None\<close>). The abstract operations below are those of
  the language specification.
\<close>

definition msPerDay :: int where
  "msPerDay = 86400000"

definition Day :: "int \<Rightarrow> int" where
  "Day t = t div msPerDay"

definition TimeWithinDay :: "int \<Rightarrow> int" where
  "TimeWithinDay t = t mod msPerDay"

definition WeekDay :: "int \<Rightarrow> int" where
  "WeekDay t = (Day t + 4) mod 7"

definition TimeClip :: "int \<Rightarrow> int option" where
  "TimeClip t = (if \<bar>t\<bar> > 8640000000000000 then None else Some t)"

text \<open>
  The time zone of the host: the offset from UTC in milliseconds that is in force
  before the first transition, and the transitions in the order of time, each with
  its instant in UTC and the offset in force from that instant on.
\<close>

record zone =
  base_offset :: int
  transitions :: "(int \<times> int) list"

text \<open>The offset in force at the instant \<open>t\<close> (UTC).\<close>

fun offset_at :: "int \<Rightarrow> (int \<times> int) list \<Rightarrow> int \<Rightarrow> int" where
  "offset_at off [] t = off"
| "offset_at off ((a, off') # ts) t = (if t < a then off else offset_at off' ts t)"

text \<open>
  The offset by which the local time value \<open>t\<close> is read. A local time that a
  transition skips, and one that a transition repeats, are read with the offset
  before the transition.
\<close>

fun offset_of_local :: "int \<Rightarrow> (int \<times> int) list \<Rightarrow> int \<Rightarrow> int" where
  "offset_of_local off [] t = off"
| "offset_of_local off ((a, off') # ts) t =
     (if t - off < a \<or> t - off' < a then off else offset_of_local off' ts t)"

definition LocalTZA :: "zone \<Rightarrow> int \<Rightarrow> bool \<Rightarrow> int" where
  "LocalTZA z t isUTC =
     (if isUTC then offset_at (base_offset z) (transitions z) t
      else offset_of_local (base_offset z) (transitions z) t)"

definition LocalTime :: "zone \<Rightarrow> int \<Rightarrow> int" where
  "LocalTime z t = t + LocalTZA z t True"

definition UTC :: "zone \<Rightarrow> int \<Rightarrow> int" where
  "UTC z t = t - LocalTZA z t False"

text \<open>\<^verbatim>\<open>d.getDay()\<close>: NaN for an invalid date.\<close>

definition getDay :: "zone \<Rightarrow> int option \<Rightarrow> int option" where
  "getDay z d = map_option (\<lambda>t. WeekDay (LocalTime z t)) d"

text \<open>
  \<^verbatim>\<open>d.setDate(d.getDate() - diff)\<close>: the local day moves back by \<open>diff\<close> days (the
  day of the month may leave its range; the date rolls over into the month before),
  the local time of day stays, and the result is clipped.
\<close>

definition setDate_getDate_minus :: "zone \<Rightarrow> int option \<Rightarrow> int option \<Rightarrow> int option" where
  "setDate_getDate_minus z d diff =
     (case (d, diff) of
        (Some tv, Some n) \<Rightarrow>
          (let t = LocalTime z tv
           in TimeClip (UTC z ((Day t - n) * msPerDay + TimeWithinDay t)))
      | _ \<Rightarrow> None)"

text \<open>\<^verbatim>\<open>d.setHours(0, 0, 0, 0)\<close>: local midnight of the local day, clipped.\<close>

definition setHours_0 :: "zone \<Rightarrow> int option \<Rightarrow> int option" where
  "setHours_0 z d =
     (case d of
        Some tv \<Rightarrow> (let t = LocalTime z tv in TimeClip (UTC z (Day t * msPerDay)))
      | None \<Rightarrow> None)"

definition getWeekStartDate :: "zone \<Rightarrow> int option \<Rightarrow> int option" where
  "getWeekStartDate z date =
    (let d = date;
         day = getDay z d;
         diff = day;
         d = setDate_getDate_minus z d diff;
         d = setHours_0 z d
     in d)"

text \<open>
  The local time value of the midnight that begins the week of \<open>d\<close>, by day numbers
  alone: day 3 (1970-01-04) is a Sunday, and so is every day that differs from it by
  a multiple of 7.
\<close>

definition week_start_local :: "zone \<Rightarrow> int \<Rightarrow> int" where
  "week_start_local z d =
     (Day (LocalTime z d) - (Day (LocalTime z d) - 3) mod 7) * msPerDay"

text \<open>
  The zone shows the local time \<open>t\<close> on its clocks: the instant at which \<open>t\<close> is
  read has that local time.
\<close>

definition local_time_exists :: "zone \<Rightarrow> int \<Rightarrow> bool" where
  "local_time_exists z t = (LocalTime z (UTC z t) = t)"

section \<open>Predicates and example data for the theorems\<close>

text \<open>The invariant of the streak table: no row has a current streak above its longest.\<close>

definition streak_invariant :: "(uuid \<rightharpoonup> user_streak) \<Rightarrow> bool" where
  "streak_invariant tbl = (\<forall>u s. tbl u = Some s \<longrightarrow> current_streak s \<le> longest_streak s)"

text \<open>
  A streak row of user 1 whose last week starts on day 3 (1970-01-04, a Sunday), entries
  of that user, and a history with a gap of one week.
\<close>

definition example_streaks :: "uuid \<rightharpoonup> user_streak" where
  "example_streaks =
     [1 \<mapsto> \<lparr>current_streak = 2, longest_streak = 5, last_log_week_start = Some 3\<rparr>]"

definition example_log :: "date \<Rightarrow> screen_time_log" where
  "example_log d = \<lparr>user_id = 1, week_start_date = d, minutes = 60, deleted_at = None\<rparr>"

definition example_history :: "screen_time_log list" where
  "example_history = [example_log 3, example_log 10, example_log 24]"


text \<open>
  A database read on day 5 (Tuesday 1970-01-06; its week starts on day 3): Alice, Bob
  and Carol are visible with 120, 90 and 90 minutes in the last four weeks, Dave has
  hidden himself, Erin's account is deleted, and Frank has logged a week that has not
  begun. One entry of Bob is deleted, one of Alice is older than the window.
\<close>

definition example_user :: "uuid \<Rightarrow> string \<Rightarrow> timestamptz option \<Rightarrow> user" where
  "example_user i name del =
     \<lparr>u_id = i, u_display_name = name, u_avatar_url = None, u_deleted_at = del\<rparr>"

definition example_entry :: "uuid \<Rightarrow> date \<Rightarrow> int \<Rightarrow> timestamptz option \<Rightarrow> screen_time_log" where
  "example_entry i d m del = \<lparr>user_id = i, week_start_date = d, minutes = m, deleted_at = del\<rparr>"

definition example_db :: database where
  "example_db =
    \<lparr>users = [example_user 3 ''Carol'' None, example_user 4 ''Dave'' None,
              example_user 2 ''Bob'' None, example_user 5 ''Erin'' (Some 1000),
              example_user 1 ''Alice'' None, example_user 6 ''Frank'' None],
     screen_time_logs =
       [example_entry 2 3 90 None, example_entry 3 3 40 None, example_entry 3 (-4) 50 None,
        example_entry 1 3 120 None, example_entry 4 3 500 None, example_entry 5 3 60 None,
        example_entry 2 (-4) 1000 (Some 2000), example_entry 1 (-25) 7 None,
        example_entry 6 10 30 None],
     user_settings = [4 \<mapsto> False, 1 \<mapsto> True, 5 \<mapsto> True],
     user_streaks = [1 \<mapsto> \<lparr>current_streak = 2, longest_streak = 5, last_log_week_start = Some 3\<rparr>]\<rparr>"

text \<open>The rows that the weekly leaderboard of that database holds.\<close>

definition example_weekly_rows :: "leaderboard_entry list" where
  "example_weekly_rows =
     [\<lparr>lb_user_id = 1, lb_display_name = ''Alice'', lb_avatar_url = None,
         total_minutes = 120, lb_current_streak = 2, rank = 1\<rparr>,
      \<lparr>lb_user_id = 2, lb_display_name = ''Bob'', lb_avatar_url = None,
         total_minutes = 90, lb_current_streak = 0, rank = 2\<rparr>,
      \<lparr>lb_user_id = 3, lb_display_name = ''Carol'', lb_avatar_url = None,
         total_minutes = 90, lb_current_streak = 0, rank = 2\<rparr>,
      \<lparr>lb_user_id = 6, lb_display_name = ''Frank'', lb_avatar_url = None,
         total_minutes = 30, lb_current_streak = 0, rank = 4\<rparr>]"

text \<open>
  Two orders of texts, for the collation of the database: by character codes (the
  collation C), and by character codes after capital letters are made small.
\<close>

definition collation_C :: "string \<Rightarrow> string \<Rightarrow> bool" where
  "collation_C a b = (a \<le> b)"

definition lower :: "char \<Rightarrow> char" where
  "lower c = (if CHR ''A'' \<le> c \<and> c \<le> CHR ''Z'' then char_of (of_char c + (32 :: nat)) else c)"

definition collation_ci :: "string \<Rightarrow> string \<Rightarrow> bool" where
  "collation_ci a b = (map lower a \<le> map lower b)"

text \<open>Three visible users with 60 minutes each in the current week.\<close>

definition example_names_db :: database where
  "example_names_db =
    \<lparr>users = [example_user 1 ''Zed'' None, example_user 2 ''amy'' None,
              example_user 3 ''Cat'' None],
     screen_time_logs =
       [example_entry 1 3 60 None, example_entry 2 3 60 None, example_entry 3 3 60 None],
     user_settings = Map.empty,
     user_streaks = Map.empty\<rparr>"

text \<open>The rows of their leaderboard, in a given order.\<close>

definition example_names_rows :: "(uuid \<times> string) list \<Rightarrow> leaderboard_entry list" where
  "example_names_rows xs =
     map (\<lambda>(i, name). \<lparr>lb_user_id = i, lb_display_name = name, lb_avatar_url = None,
            total_minutes = 60, lb_current_streak = 0, rank = 1\<rparr>) xs"

text \<open>
  Three time zones. UTC; the clocks of New York in 2026, which go from 02:00 to 03:00
  on 8 March (07:00 UTC) and from 02:00 back to 01:00 on 1 November (06:00 UTC); and
  the clocks of Sao Paulo in 2018, which go from 00:00 to 01:00 on Sunday 4 November
  (03:00 UTC).
\<close>

definition zone_utc :: zone where
  "zone_utc = \<lparr>base_offset = 0, transitions = []\<rparr>"

definition zone_new_york_2026 :: zone where
  "zone_new_york_2026 =
     \<lparr>base_offset = - 18000000,
      transitions = [(1772953200000, - 14400000), (1793512800000, - 18000000)]\<rparr>"

definition zone_sao_paulo_2018 :: zone where
  "zone_sao_paulo_2018 =
     \<lparr>base_offset = - 10800000, transitions = [(1541300400000, - 7200000)]\<rparr>"

section \<open>Properties of the streak engine\<close>

lemma update_user_streak_path_found:
  assumes "tbl (user_id NEW) = Some s"
  shows "update_user_streak_path tbl NEW =
    (case last_log_week_start s of
       None \<Rightarrow>
         (case int4pl (current_streak s) 1 of
            Inl e \<Rightarrow> Inl e
          | Inr n \<Rightarrow> Inr (tbl(user_id NEW \<mapsto> s\<lparr>current_streak := n,
                    longest_streak := max (longest_streak s) n,
                    last_log_week_start := Some (week_start_date NEW)\<rparr>), Continues))
     | Some l \<Rightarrow>
        if week_start_date NEW \<le> l then Inr (tbl, Not_newer)
        else if week_start_date NEW = l + 7 then
          (case int4pl (current_streak s) 1 of
             Inl e \<Rightarrow> Inl e
           | Inr n \<Rightarrow> Inr (tbl(user_id NEW \<mapsto> s\<lparr>current_streak := n,
                    longest_streak := max (longest_streak s) n,
                    last_log_week_start := Some (week_start_date NEW)\<rparr>), Continues))
        else Inr (tbl(user_id NEW \<mapsto> s\<lparr>current_streak := 1,
                    longest_streak := max (longest_streak s) 1,
                    last_log_week_start := Some (week_start_date NEW)\<rparr>), Broken))"
  using assms
  by (auto simp: update_user_streak_path_def Let_def max_def split: option.splits sum.splits)

lemma update_user_streak_daily_path_found:
  assumes "tbl (user_id NEW) = Some s"
  shows "update_user_streak_daily_path tbl NEW =
    (case last_log_week_start s of
       None \<Rightarrow>
         (case int4pl (current_streak s) 1 of
            Inl e \<Rightarrow> Inl e
          | Inr n \<Rightarrow> Inr (tbl(user_id NEW \<mapsto> s\<lparr>current_streak := n,
                    longest_streak := max (longest_streak s) n,
                    last_log_week_start := Some (week_start_date NEW)\<rparr>), Continues))
     | Some l \<Rightarrow>
        if week_start_date NEW \<le> l then Inr (tbl, Not_newer)
        else if week_start_date NEW = l + 1 then
          (case int4pl (current_streak s) 1 of
             Inl e \<Rightarrow> Inl e
           | Inr n \<Rightarrow> Inr (tbl(user_id NEW \<mapsto> s\<lparr>current_streak := n,
                    longest_streak := max (longest_streak s) n,
                    last_log_week_start := Some (week_start_date NEW)\<rparr>), Continues))
        else Inr (tbl(user_id NEW \<mapsto> s\<lparr>current_streak := 1,
                    longest_streak := max (longest_streak s) 1,
                    last_log_week_start := Some (week_start_date NEW)\<rparr>), Broken))"
  using assms
  by (auto simp: update_user_streak_daily_path_def Let_def max_def split: option.splits sum.splits)

lemma update_user_streak_path_absent:
  assumes "tbl (user_id NEW) = None"
  shows "update_user_streak_path tbl NEW =
     Inr (tbl(user_id NEW \<mapsto> \<lparr>current_streak = 1, longest_streak = 1,
        last_log_week_start = Some (week_start_date NEW)\<rparr>), Created)"
    and "update_user_streak_daily_path tbl NEW =
     Inr (tbl(user_id NEW \<mapsto> \<lparr>current_streak = 1, longest_streak = 1,
        last_log_week_start = Some (week_start_date NEW)\<rparr>), Created)"
  using assms
  by (simp_all add: update_user_streak_path_def update_user_streak_daily_path_def)





text \<open>
  Claim C7. When the user's streak row has a last period start \<open>L\<close> (not NULL), an
  inserted entry whose period start is at or before \<open>L\<close> leaves the whole
  \<^verbatim>\<open>user_streaks\<close> table, and so every field of the user's row, unchanged: the
  trigger succeeds and returns the table it was given.
\<close>

theorem backfill_no_change:
  assumes "tbl (user_id NEW) = Some s"
    and "last_log_week_start s = Some L"
    and "week_start_date NEW \<le> L"
  shows "update_user_streak tbl NEW = Inr tbl \<and> calculate_streak_on_log tbl NEW = Inr tbl
       \<and> insert_screen_time_log tbl NEW = tbl"
  using assms
  by (simp add: calculate_streak_on_log_def update_user_streak_def insert_screen_time_log_def
      update_user_streak_path_found)

text \<open>Claim C7 for an entry backfilled one week before the last logged week.\<close>

theorem backfill_no_change_witness:
  "example_streaks (user_id (example_log (-4))) =
      Some \<lparr>current_streak = 2, longest_streak = 5, last_log_week_start = Some 3\<rparr>
   \<and> week_start_date (example_log (-4)) \<le> 3
   \<and> update_user_streak example_streaks (example_log (-4)) = Inr example_streaks
   \<and> calculate_streak_on_log example_streaks (example_log (-4)) = Inr example_streaks
   \<and> insert_screen_time_log example_streaks (example_log (-4)) = example_streaks"
  using backfill_no_change [of example_streaks "example_log (-4)"
      "\<lparr>current_streak = 2, longest_streak = 5, last_log_week_start = Some 3\<rparr>" 3]
  by (simp add: example_streaks_def example_log_def)

text \<open>
  Claim C10. No insert runs through the ELSIF arm that tests the new period start for
  equality with the stored one, in the weekly and in the daily function; an entry for
  the stored period leaves through the failing outer guard, with the table unchanged.
\<close>

theorem same_period_branch_unreachable:
  "(\<forall>t. update_user_streak_path tbl NEW \<noteq> Inr (t, Same_period))
   \<and> (\<forall>t. update_user_streak_daily_path tbl NEW \<noteq> Inr (t, Same_period))
   \<and> (\<forall>s. tbl (user_id NEW) = Some s \<and> last_log_week_start s = Some (week_start_date NEW)
        \<longrightarrow> update_user_streak_path tbl NEW = Inr (tbl, Not_newer)
          \<and> update_user_streak_daily_path tbl NEW = Inr (tbl, Not_newer))"
proof (cases "tbl (user_id NEW)")
  case None
  then show ?thesis by (simp add: update_user_streak_path_absent)
next
  case (Some s)
  then show ?thesis
    by (simp add: update_user_streak_path_found update_user_streak_daily_path_found
        split: option.splits sum.splits)
qed

text \<open>Claim C10 for a second entry in the last logged week.\<close>

theorem same_period_branch_unreachable_witness:
  "example_streaks (user_id (example_log 3)) =
      Some \<lparr>current_streak = 2, longest_streak = 5, last_log_week_start = Some 3\<rparr>
   \<and> week_start_date (example_log 3) = 3
   \<and> update_user_streak_path example_streaks (example_log 3) = Inr (example_streaks, Not_newer)
   \<and> update_user_streak_daily_path example_streaks (example_log 3) =
       Inr (example_streaks, Not_newer)"
  using same_period_branch_unreachable [of example_streaks "example_log 3"]
  by (simp add: example_streaks_def example_log_def)

lemma update_user_streak_result:
  assumes "update_user_streak tbl NEW = Inr t"
  shows "(\<forall>u s. tbl u = Some s \<longrightarrow> current_streak s \<le> longest_streak s) \<longrightarrow>
           (\<forall>u s. t u = Some s \<longrightarrow> current_streak s \<le> longest_streak s)"
    and "tbl u = Some s \<Longrightarrow> \<exists>s'. t u = Some s' \<and> longest_streak s \<le> longest_streak s'"
proof -
  show "(\<forall>u s. tbl u = Some s \<longrightarrow> current_streak s \<le> longest_streak s) \<longrightarrow>
           (\<forall>u s. t u = Some s \<longrightarrow> current_streak s \<le> longest_streak s)"
  proof (cases "tbl (user_id NEW)")
    case None
    with assms show ?thesis
      by (auto simp: update_user_streak_def update_user_streak_path_absent split: if_splits)
  next
    case (Some r)
    with assms show ?thesis
      by (auto simp: update_user_streak_def update_user_streak_path_found
          split: option.splits if_splits sum.splits)
  qed
  show "\<exists>s'. t u = Some s' \<and> longest_streak s \<le> longest_streak s'" if "tbl u = Some s"
  proof (cases "tbl (user_id NEW)")
    case None
    with assms that show ?thesis
      by (auto simp: update_user_streak_def update_user_streak_path_absent)
  next
    case (Some r)
    with assms that show ?thesis
      by (auto simp: update_user_streak_def update_user_streak_path_found
          split: option.splits if_splits sum.splits)
  qed
qed

lemma insert_screen_time_log_cases:
  "insert_screen_time_log tbl NEW = tbl \<or>
   (deleted_at NEW = None \<and> update_user_streak tbl NEW = Inr (insert_screen_time_log tbl NEW))"
  by (auto simp: insert_screen_time_log_def calculate_streak_on_log_def split: sum.splits)

lemma insert_screen_time_log_invariant:
  assumes "streak_invariant tbl"
  shows "streak_invariant (insert_screen_time_log tbl NEW)"
  using insert_screen_time_log_cases [of tbl NEW] assms
    update_user_streak_result(1) [of tbl NEW "insert_screen_time_log tbl NEW"]
  unfolding streak_invariant_def by auto

lemma insert_all_snoc:
  "insert_all tbl (rows @ [NEW]) = insert_screen_time_log (insert_all tbl rows) NEW"
  by (simp add: insert_all_def)

lemma insert_all_invariant:
  assumes "streak_invariant tbl"
  shows "streak_invariant (insert_all tbl rows)"
proof (induction rows rule: rev_induct)
  case Nil
  from assms show ?case by (simp add: insert_all_def)
next
  case (snoc NEW rows)
  then show ?case by (simp add: insert_all_snoc insert_screen_time_log_invariant)
qed

lemma insert_screen_time_log_longest_mono:
  assumes "tbl u = Some s"
  shows "\<exists>s'. insert_screen_time_log tbl NEW u = Some s' \<and> longest_streak s \<le> longest_streak s'"
  using insert_screen_time_log_cases [of tbl NEW] assms
    update_user_streak_result(2) [of tbl NEW "insert_screen_time_log tbl NEW" u s]
  by auto

text \<open>
  Claim C3. Start from a \<^verbatim>\<open>user_streaks\<close> table without rows and insert any sequence
  of entries; an insert that the trigger refuses leaves the table as it was. After
  each insert, a user's row has \<open>current_streak \<le> longest_streak\<close>, and the next
  insert does not lower the longest streak of a row that exists; the first non-deleted
  entry of a user creates the row with both streaks 1.
\<close>

theorem longest_streak_monotone:
  "(\<forall>s. insert_all Map.empty rows u = Some s \<longrightarrow>
        current_streak s \<le> longest_streak s
      \<and> (\<exists>s'. insert_all Map.empty (rows @ [NEW]) u = Some s'
             \<and> longest_streak s \<le> longest_streak s'))
   \<and> (insert_all Map.empty rows u = None \<and> user_id NEW = u \<and> deleted_at NEW = None \<longrightarrow>
        insert_all Map.empty (rows @ [NEW]) u =
          Some \<lparr>current_streak = 1, longest_streak = 1,
                last_log_week_start = Some (week_start_date NEW)\<rparr>)"
proof -
  have "streak_invariant (insert_all Map.empty rows)"
    by (rule insert_all_invariant) (simp add: streak_invariant_def)
  then have inv: "\<forall>s. insert_all Map.empty rows u = Some s \<longrightarrow> current_streak s \<le> longest_streak s"
    by (simp add: streak_invariant_def)
  have mono: "\<forall>s. insert_all Map.empty rows u = Some s \<longrightarrow>
      (\<exists>s'. insert_all Map.empty (rows @ [NEW]) u = Some s' \<and> longest_streak s \<le> longest_streak s')"
    by (simp add: insert_all_snoc insert_screen_time_log_longest_mono)
  have first: "insert_all Map.empty rows u = None \<and> user_id NEW = u \<and> deleted_at NEW = None \<longrightarrow>
        insert_all Map.empty (rows @ [NEW]) u =
          Some \<lparr>current_streak = 1, longest_streak = 1,
                last_log_week_start = Some (week_start_date NEW)\<rparr>"
    by (auto simp: insert_all_snoc insert_screen_time_log_def calculate_streak_on_log_def
        update_user_streak_def update_user_streak_path_absent)
  from inv mono first show ?thesis by blast
qed

text \<open>
  Claim C3 on the history of weeks 3, 10, 24 followed by week 31: the row is created as
  (1, 1), and the longest streak stays 2 when the current one restarts.
\<close>

theorem longest_streak_monotone_witness:
  "insert_all Map.empty [] 1 = None
   \<and> insert_all Map.empty [example_log 3] 1 =
       Some \<lparr>current_streak = 1, longest_streak = 1, last_log_week_start = Some 3\<rparr>
   \<and> insert_all Map.empty example_history 1 =
       Some \<lparr>current_streak = 1, longest_streak = 2, last_log_week_start = Some 24\<rparr>
   \<and> insert_all Map.empty (example_history @ [example_log 31]) 1 =
       Some \<lparr>current_streak = 2, longest_streak = 2, last_log_week_start = Some 31\<rparr>"
  using longest_streak_monotone [of "[]" 1 "example_log 3"]
    longest_streak_monotone [of example_history 1 "example_log 31"]
  by (simp add: example_history_def example_log_def insert_all_def insert_screen_time_log_def
      calculate_streak_on_log_def update_user_streak_def update_user_streak_path_def int4pl_def)

section \<open>Properties of the calendar arithmetic\<close>

lemma extract_dow_range: "0 \<le> extract_dow d \<and> extract_dow d \<le> 6"
  by (simp add: extract_dow_def)

lemma week_start_of_sunday: "extract_dow (week_start_of d) = 0"
  unfolding week_start_of_def extract_dow_def by presburger

lemma week_start_of_bounds: "week_start_of d \<le> d \<and> d - week_start_of d \<le> 6"
  using extract_dow_range [of d] by (simp add: week_start_of_def)

lemma epoch_floor_day: "days_from_civil 1900 1 1 = - 25567"
  by (simp add: days_from_civil_def)

text \<open>
  Claim C2 fails on Tuesday 1970-01-06 (day 5, week start 3): the monthly window
  starts at day -79, not 84 days before the week start, and an unrecognized name
  starts at day -23, not at the weekly start -18.
\<close>

theorem start_date_counterexample:
  "get_leaderboard_start_date 5 ''monthly'' \<noteq> week_start_of 5 - 84
   \<and> get_leaderboard_start_date 5 ''yearly'' \<noteq> get_leaderboard_start_date 5 ''weekly''"
  by (simp add: get_leaderboard_start_date_def week_start_of_def extract_dow_def)

text \<open>
  Claim C2, amended. The window starts at the Sunday of the current week for
  \<open>daily\<close>, 21 days before that Sunday for \<open>weekly\<close>, 84 days before the current
  date for \<open>monthly\<close> (which is 84 days before the Sunday only on a Sunday), on
  1900-01-01 for \<open>all_time\<close>, and 28 days before the current date for any other
  name, which is never the start of the weekly window.
\<close>

theorem start_date_bounds:
  "get_leaderboard_start_date today ''daily'' = week_start_of today
   \<and> get_leaderboard_start_date today ''weekly'' = week_start_of today - 21
   \<and> get_leaderboard_start_date today ''monthly'' = today - 84
   \<and> (get_leaderboard_start_date today ''monthly'' = week_start_of today - 84
        \<longleftrightarrow> extract_dow today = 0)
   \<and> get_leaderboard_start_date today ''all_time'' = days_from_civil 1900 1 1
   \<and> (period \<notin> {''daily'', ''weekly'', ''monthly'', ''all_time''} \<longrightarrow>
         get_leaderboard_start_date today period = today - 28
       \<and> get_leaderboard_start_date today period \<noteq> get_leaderboard_start_date today ''weekly'')
   \<and> extract_dow (week_start_of today) = 0
   \<and> week_start_of today \<le> today
   \<and> today - week_start_of today \<le> 6"
proof -
  have r: "0 \<le> extract_dow today" "extract_dow today \<le> 6"
    using extract_dow_range [of today] by simp_all
  have named: "get_leaderboard_start_date today ''daily'' = week_start_of today"
    "get_leaderboard_start_date today ''weekly'' = week_start_of today - 21"
    "get_leaderboard_start_date today ''monthly'' = today - 84"
    "get_leaderboard_start_date today ''all_time'' = days_from_civil 1900 1 1"
    by (simp_all add: get_leaderboard_start_date_def week_start_of_def)
  have monthly: "get_leaderboard_start_date today ''monthly'' = week_start_of today - 84
        \<longleftrightarrow> extract_dow today = 0"
    by (simp add: named week_start_of_def)
  have other: "period \<notin> {''daily'', ''weekly'', ''monthly'', ''all_time''} \<longrightarrow>
         get_leaderboard_start_date today period = today - 28
       \<and> get_leaderboard_start_date today period \<noteq> get_leaderboard_start_date today ''weekly''"
    using r by (simp add: named(2) week_start_of_def) (simp add: get_leaderboard_start_date_def)
  from named monthly other week_start_of_sunday [of today] week_start_of_bounds [of today]
  show ?thesis by simp
qed

text \<open>Claim C2, amended, on day 5 with the unrecognized name \<open>yearly\<close>.\<close>

theorem start_date_bounds_witness:
  "''yearly'' \<notin> {''daily'', ''weekly'', ''monthly'', ''all_time''}
   \<and> get_leaderboard_start_date 5 ''yearly'' = - 23
   \<and> get_leaderboard_start_date 5 ''weekly'' = - 18
   \<and> get_leaderboard_start_date 5 ''monthly'' = - 79
   \<and> get_leaderboard_start_date 5 ''daily'' = 3"
  using start_date_bounds [of 5 "''yearly''"]
  by (simp add: week_start_of_def extract_dow_def)

section \<open>Properties of the week utilities\<close>

lemma Day_of_midnight_plus:
  assumes "0 \<le> r" "r < msPerDay"
  shows "Day (k * msPerDay + r) = k"
  using assms by (simp add: Day_def msPerDay_def div_pos_pos_trivial)

lemma Day_of_midnight: "Day (k * msPerDay) = k"
  using Day_of_midnight_plus [of 0 k] by (simp add: msPerDay_def)

lemma TimeWithinDay_range: "0 \<le> TimeWithinDay t" "TimeWithinDay t < msPerDay"
  by (simp_all add: TimeWithinDay_def msPerDay_def)

lemma week_start_local_WeekDay:
  "week_start_local z d = (Day (LocalTime z d) - WeekDay (LocalTime z d)) * msPerDay"
proof -
  have "(Day (LocalTime z d) - 3) mod 7 = (Day (LocalTime z d) + 4) mod 7"
    by presburger
  then show ?thesis by (simp add: week_start_local_def WeekDay_def)
qed

lemma week_start_local_day:
  "Day (week_start_local z d) mod 7 = 3"
  "0 \<le> Day (LocalTime z d) - Day (week_start_local z d)"
  "Day (LocalTime z d) - Day (week_start_local z d) \<le> 6"
  unfolding week_start_local_def Day_of_midnight by presburger+

lemma getWeekStartDate_Some:
  "getWeekStartDate z (Some d) =
     (case TimeClip (UTC z (week_start_local z d + TimeWithinDay (LocalTime z d))) of
        None \<Rightarrow> None
      | Some u \<Rightarrow> TimeClip (UTC z (Day (LocalTime z u) * msPerDay)))"
  by (simp add: getWeekStartDate_def getDay_def setDate_getDate_minus_def setHours_0_def
      week_start_local_WeekDay Let_def split: option.splits)

lemma fixed_zone:
  assumes "transitions z = []"
  shows "LocalTime z t = t + base_offset z" and "UTC z t = t - base_offset z"
  using assms by (simp_all add: LocalTime_def UTC_def LocalTZA_def)

lemma getWeekStartDate_local:
  assumes "getWeekStartDate z (Some d) = Some s"
    and "local_time_exists z (week_start_local z d)"
    and "Day (LocalTime z (UTC z (week_start_local z d + TimeWithinDay (LocalTime z d)))) =
         Day (week_start_local z d)"
  shows "LocalTime z s = week_start_local z d"
proof -
  let ?w = "week_start_local z d"
  from assms(1) obtain u where u: "TimeClip (UTC z (?w + TimeWithinDay (LocalTime z d))) = Some u"
    and s: "TimeClip (UTC z (Day (LocalTime z u) * msPerDay)) = Some s"
    by (auto simp: getWeekStartDate_Some split: option.splits)
  from u have "u = UTC z (?w + TimeWithinDay (LocalTime z d))"
    by (simp add: TimeClip_def split: if_splits)
  with assms(3) have "Day (LocalTime z u) = Day ?w" by simp
  also have "\<dots> * msPerDay = ?w"
    by (simp add: week_start_local_def Day_of_midnight)
  finally have "Day (LocalTime z u) * msPerDay = ?w" by simp
  with s have "s = UTC z ?w" by (simp add: TimeClip_def split: if_splits)
  with assms(2) show ?thesis by (simp add: local_time_exists_def)
qed

lemma fixed_zone_week_start:
  assumes "transitions z = []"
  shows "local_time_exists z (week_start_local z d)"
    and "Day (LocalTime z (UTC z (week_start_local z d + TimeWithinDay (LocalTime z d)))) =
         Day (week_start_local z d)"
proof -
  show "local_time_exists z (week_start_local z d)"
    by (simp add: local_time_exists_def fixed_zone [OF assms])
  have "Day (week_start_local z d + TimeWithinDay (LocalTime z d)) = Day (week_start_local z d)"
    unfolding week_start_local_def Day_of_midnight
    by (rule Day_of_midnight_plus) (rule TimeWithinDay_range)+
  then show "Day (LocalTime z (UTC z (week_start_local z d + TimeWithinDay (LocalTime z d)))) =
         Day (week_start_local z d)"
    by (simp add: fixed_zone [OF assms])
qed

lemma fixed_zone_valid:
  assumes "transitions z = []" and "\<bar>base_offset z\<bar> \<le> msPerDay"
    and "\<bar>d\<bar> \<le> 8640000000000000 - 8 * msPerDay"
  shows "getWeekStartDate z (Some d) \<noteq> None"
proof -
  let ?t = "LocalTime z d"
  let ?w = "week_start_local z d"
  let ?r = "TimeWithinDay ?t"
  have t: "?t = d + base_offset z" by (simp add: fixed_zone [OF assms(1)])
  have split: "?t = Day ?t * msPerDay + ?r" by (simp add: Day_def TimeWithinDay_def)
  have wd: "0 \<le> (Day ?t - 3) mod 7" "(Day ?t - 3) mod 7 \<le> 6" by simp_all
  have w: "?w = Day ?t * msPerDay - ((Day ?t - 3) mod 7) * msPerDay"
    by (simp add: week_start_local_def algebra_simps)
  have m: "0 \<le> ((Day ?t - 3) mod 7) * msPerDay" "((Day ?t - 3) mod 7) * msPerDay \<le> 6 * msPerDay"
    using wd by (simp_all add: msPerDay_def)
  have r: "0 \<le> ?r" "?r < msPerDay" by (rule TimeWithinDay_range)+
  have lo: "?t - 7 * msPerDay \<le> ?w" and hi: "?w + ?r \<le> ?t"
    using split w m r by linarith+
  have u: "UTC z (?w + ?r) = ?w + ?r - base_offset z" by (simp add: fixed_zone [OF assms(1)])
  have c2: "\<bar>?w - base_offset z\<bar> \<le> 8640000000000000"
    using lo hi r t assms(2,3) by (auto simp: msPerDay_def)
  have "\<bar>?w + ?r - base_offset z\<bar> \<le> 8640000000000000"
    using lo hi r t assms(2,3) by (auto simp: msPerDay_def)
  then have c1: "TimeClip (?w + ?r - base_offset z) = Some (?w + ?r - base_offset z)"
    by (simp add: TimeClip_def)
  have "Day (LocalTime z (UTC z (?w + ?r))) = Day ?w"
    by (rule fixed_zone_week_start(2) [OF assms(1)])
  then have "Day (LocalTime z (?w + ?r - base_offset z)) = Day ?w"
    by (simp only: u)
  moreover have "Day ?w * msPerDay = ?w"
    by (simp add: week_start_local_def Day_of_midnight)
  ultimately have "Day (LocalTime z (?w + ?r - base_offset z)) * msPerDay = ?w"
    by simp
  then have "getWeekStartDate z (Some d) = TimeClip (?w - base_offset z)"
    by (simp only: getWeekStartDate_Some c1 option.case fixed_zone(2) [OF assms(1)])
  moreover have "TimeClip (?w - base_offset z) = Some (?w - base_offset z)"
    using c2 by (simp add: TimeClip_def)
  ultimately show ?thesis by simp
qed

text \<open>
  Claim C9 fails in Sao Paulo for Tuesday 6 November 2018, 13:00 local time: the week
  begins on Sunday 4 November, the day on which the clocks go from 00:00 to 01:00, and
  the result is that Sunday at 01:00 local time, not at midnight.
\<close>

theorem getWeekStartDate_counterexample:
  "Day (LocalTime zone_sao_paulo_2018 1541516400000) = days_from_civil 2018 11 6
   \<and> getWeekStartDate zone_sao_paulo_2018 (Some 1541516400000) = Some 1541300400000
   \<and> Day (LocalTime zone_sao_paulo_2018 1541300400000) = days_from_civil 2018 11 4
   \<and> TimeWithinDay (LocalTime zone_sao_paulo_2018 1541300400000) = 3600000"
  by (simp add: getWeekStartDate_Some week_start_local_def zone_sao_paulo_2018_def
      LocalTime_def UTC_def LocalTZA_def TimeClip_def Day_def TimeWithinDay_def msPerDay_def
      days_from_civil_def)

text \<open>
  Claim C9, amended. Let \<open>d\<close> be a valid date whose result \<open>s\<close> is a valid date,
  in a zone with a fixed offset, or in a zone in which the midnight that begins the
  week of \<open>d\<close> exists and the time of day of \<open>d\<close> on that first day is a time of that
  day. Then \<open>s\<close> is that midnight: its local day is a Sunday (it differs from
  1970-01-04 by a multiple of 7 days), its local time of day is 0, and it lies between
  0 and 6 calendar days before the local day of \<open>d\<close>. In a zone with a fixed offset
  of at most a day, every date that is 8 days or more inside the range of time values
  has a valid result. An invalid date has an invalid result.
\<close>

theorem getWeekStartDate_sunday:
  "(getWeekStartDate z (Some d) = Some s \<and>
      (transitions z = [] \<or>
       local_time_exists z (week_start_local z d) \<and>
       Day (LocalTime z (UTC z (week_start_local z d + TimeWithinDay (LocalTime z d)))) =
         Day (week_start_local z d)) \<longrightarrow>
        Day (LocalTime z s) mod 7 = 3
      \<and> TimeWithinDay (LocalTime z s) = 0
      \<and> getDay z (Some s) = Some 0
      \<and> 0 \<le> Day (LocalTime z d) - Day (LocalTime z s)
      \<and> Day (LocalTime z d) - Day (LocalTime z s) \<le> 6)
   \<and> (transitions z = [] \<and> \<bar>base_offset z\<bar> \<le> msPerDay \<and>
        \<bar>d\<bar> \<le> 8640000000000000 - 8 * msPerDay \<longrightarrow>
        getWeekStartDate z (Some d) \<noteq> None)
   \<and> getWeekStartDate z None = None"
proof -
  have main: "Day (LocalTime z s) mod 7 = 3 \<and> TimeWithinDay (LocalTime z s) = 0
      \<and> getDay z (Some s) = Some 0
      \<and> 0 \<le> Day (LocalTime z d) - Day (LocalTime z s)
      \<and> Day (LocalTime z d) - Day (LocalTime z s) \<le> 6"
    if s: "getWeekStartDate z (Some d) = Some s"
      and ex: "local_time_exists z (week_start_local z d)"
      and day: "Day (LocalTime z (UTC z (week_start_local z d + TimeWithinDay (LocalTime z d)))) =
         Day (week_start_local z d)"
  proof -
    have loc: "LocalTime z s = week_start_local z d"
      using s ex day by (rule getWeekStartDate_local)
    have "TimeWithinDay (week_start_local z d) = 0"
      by (simp add: week_start_local_def TimeWithinDay_def)
    moreover have "(Day (week_start_local z d) + 4) mod 7 = 0"
      using week_start_local_day(1) [of z d] by presburger
    ultimately show ?thesis
      using week_start_local_day [of z d] by (simp add: loc getDay_def WeekDay_def)
  qed
  have fixed: "local_time_exists z (week_start_local z d) \<and>
      Day (LocalTime z (UTC z (week_start_local z d + TimeWithinDay (LocalTime z d)))) =
        Day (week_start_local z d)" if "transitions z = []"
    using fixed_zone_week_start [OF that, of d] by simp
  have invalid: "getWeekStartDate z None = None"
    by (simp add: getWeekStartDate_def getDay_def setDate_getDate_minus_def setHours_0_def)
  from main fixed fixed_zone_valid [of z d] invalid show ?thesis by blast
qed

text \<open>
  Claim C9, amended, in New York for Saturday 7 November 2026, 23:30 local time: the
  result is Sunday 1 November 2026, 00:00 local time, the day on which the clocks go
  back. And in UTC for the epoch, a Thursday: the result is Sunday 28 December 1969.
\<close>

theorem getWeekStartDate_sunday_witness:
  "Day (LocalTime zone_new_york_2026 1794112200000) = days_from_civil 2026 11 7
   \<and> getWeekStartDate zone_new_york_2026 (Some 1794112200000) = Some 1793505600000
   \<and> local_time_exists zone_new_york_2026 (week_start_local zone_new_york_2026 1794112200000)
   \<and> Day (LocalTime zone_new_york_2026 1793505600000) = days_from_civil 2026 11 1
   \<and> TimeWithinDay (LocalTime zone_new_york_2026 1793505600000) = 0
   \<and> transitions zone_utc = []
   \<and> getWeekStartDate zone_utc (Some 0) = Some (- 345600000)
   \<and> Day (LocalTime zone_utc (- 345600000)) = days_from_civil 1969 12 28"
  using getWeekStartDate_sunday [of zone_new_york_2026 1794112200000 1793505600000]
    getWeekStartDate_sunday [of zone_utc 0 "- 345600000"]
  by (simp add: getWeekStartDate_Some week_start_local_def local_time_exists_def
      zone_new_york_2026_def zone_utc_def LocalTime_def UTC_def LocalTZA_def TimeClip_def
      Day_def TimeWithinDay_def msPerDay_def days_from_civil_def)

section \<open>Properties of the entry validation\<close>

lemma handleSubmit_ValidationError_iff:
  "handleSubmit hours mins = Inl ValidationError \<longleftrightarrow>
     (\<exists>n. totalMinutes hours mins = Some n \<and> (n \<le> 0 \<or> n > 1440))"
  by (auto simp: handleSubmit_def split: option.splits)

text \<open>
  Claim C8: the form and the table disagree. 24 hours 30 minutes (1470 minutes) and 0
  minutes satisfy the CHECK constraint of the weekly schema, and the form rejects both
  before it writes.
\<close>

theorem handleSubmit_rejects_valid_minutes:
  "handleSubmit (Some 24) (Some 30) = Inl ValidationError
   \<and> screen_time_logs_minutes_check (24 * 60 + 30)
   \<and> handleSubmit (Some 0) (Some 0) = Inl ValidationError
   \<and> screen_time_logs_minutes_check 0"
  by (simp add: handleSubmit_def totalMinutes_def screen_time_logs_minutes_check_def)

section \<open>Properties of the leaderboard\<close>

lemma example_weekly:
  "get_leaderboard collation_C example_db 5 ''weekly'' 100 = Inr example_weekly_rows"
  by code_simp

lemma example_weekly_3:
  "get_leaderboard collation_C example_db 5 ''weekly'' 3 = Inr (take 3 example_weekly_rows)"
  by code_simp

lemma example_names_C:
  "get_leaderboard collation_C example_names_db 5 ''daily'' 100 =
     Inr (example_names_rows [(3, ''Cat''), (1, ''Zed''), (2, ''amy'')])"
  by code_simp

lemma example_names_ci:
  "get_leaderboard collation_ci example_names_db 5 ''daily'' 100 =
     Inr (example_names_rows [(2, ''amy''), (3, ''Cat''), (1, ''Zed'')])"
  by code_simp

lemma collation_C_order:
  "\<forall>a b. collation_C a b \<or> collation_C b a"
  "\<forall>a b c. collation_C a b \<and> collation_C b c \<longrightarrow> collation_C a c"
  by (auto simp: collation_C_def)

lemma collation_ci_order:
  "\<forall>a b. collation_ci a b \<or> collation_ci b a"
  "\<forall>a b c. collation_ci a b \<and> collation_ci b c \<longrightarrow> collation_ci a c"
  by (auto simp: collation_ci_def)

lemma sort_by_Cons: "sort_by le (x # xs) = insort_by le x (sort_by le xs)"
  by (simp add: sort_by_def)

lemma set_insort_by: "set (insort_by le x xs) = insert x (set xs)"
  by (induction xs) auto

lemma set_sort_by: "set (sort_by le xs) = set xs"
  by (induction xs) (simp_all add: sort_by_def set_insort_by)

lemma length_filter_insort_by:
  "length (filter P (insort_by le x xs)) = length (filter P (x # xs))"
  by (induction xs) auto

lemma length_filter_sort_by: "length (filter P (sort_by le xs)) = length (filter P xs)"
proof (induction xs)
  case Nil
  show ?case by (simp add: sort_by_def)
next
  case (Cons x xs)
  then show ?case by (simp add: sort_by_Cons length_filter_insort_by)
qed

lemma length_sort_by: "length (sort_by le xs) = length xs"
  using length_filter_sort_by [of "\<lambda>x. True" le xs] by simp

lemma sorted_wrt_insort_by:
  assumes fwd: "\<And>a b. le a b \<Longrightarrow> le' a b"
    and bwd: "\<And>a b. \<not> le a b \<Longrightarrow> le' b a"
    and trans: "\<And>a b c. le' a b \<Longrightarrow> le' b c \<Longrightarrow> le' a c"
    and "sorted_wrt le' xs"
  shows "sorted_wrt le' (insort_by le x xs)"
  using assms(4)
proof (induction xs)
  case Nil
  show ?case by simp
next
  case (Cons y ys)
  show ?case
  proof (cases "le x y")
    case True
    then have "le' x y" by (rule fwd)
    with Cons.prems have "\<forall>z \<in> set (y # ys). le' x z" by (auto intro: trans)
    with True Cons.prems show ?thesis by simp
  next
    case False
    then have "le' y x" by (rule bwd)
    with False Cons show ?thesis by (simp add: set_insort_by)
  qed
qed

lemma sorted_wrt_sort_by:
  assumes "\<And>a b. le a b \<Longrightarrow> le' a b"
    and "\<And>a b. \<not> le a b \<Longrightarrow> le' b a"
    and "\<And>a b c. le' a b \<Longrightarrow> le' b c \<Longrightarrow> le' a c"
  shows "sorted_wrt le' (sort_by le xs)"
proof (induction xs)
  case Nil
  show ?case by (simp add: sort_by_def)
next
  case (Cons x xs)
  show ?case unfolding sort_by_Cons
    by (rule sorted_wrt_insort_by [where le' = le']) (fact assms Cons)+
qed

lemma takeWhile_neq_sorted_desc:
  assumes "sorted_wrt (\<lambda>a b. b \<le> a) xs" and "t \<in> set xs"
  shows "takeWhile (\<lambda>x. x \<noteq> t) xs = filter (\<lambda>x. t < x) (xs :: int list)"
  using assms
proof (induction xs)
  case Nil
  then show ?case by simp
next
  case (Cons x xs)
  show ?case
  proof (cases "x = t")
    case True
    with Cons.prems have "\<forall>y \<in> set xs. \<not> t < y" by auto
    then have "filter (\<lambda>y. t < y) xs = []" by (simp add: filter_empty_conv)
    with True show ?thesis by simp
  next
    case False
    with Cons.prems have "t \<in> set xs" "t < x" by auto
    with Cons show ?thesis by simp
  qed
qed

lemma length_filter_rev_sort:
  "length (filter P (rev (sort xs))) = length (filter P (xs :: int list))"
  by (simp add: rev_filter [symmetric] filter_sort)

lemma RANK_count:
  assumes "t \<in> set totals"
  shows "RANK totals t = 1 + int (length (filter (\<lambda>x. t < x) totals))"
proof -
  have "sorted_wrt (\<lambda>a b. b \<le> a) (rev (sort totals))"
    by (simp add: sorted_wrt_rev)
  moreover have "t \<in> set (rev (sort totals))" using assms by simp
  ultimately have "takeWhile (\<lambda>x. x \<noteq> t) (rev (sort totals)) = filter (\<lambda>x. t < x) (rev (sort totals))"
    by (rule takeWhile_neq_sorted_desc)
  then show ?thesis by (simp add: RANK_def length_filter_rev_sort)
qed

lemma leaderboard_rows_eq:
  "leaderboard_rows name_le db sd =
     sort_by (order_by_le name_le)
       (map (select_row db (map snd (having_groups db sd))) (having_groups db sd))"
  by (simp add: leaderboard_rows_def Let_def)

lemma select_row_fields:
  "total_minutes (select_row db totals g) = snd g"
  "lb_user_id (select_row db totals g) = u_id (fst g)"
  "lb_display_name (select_row db totals g) = u_display_name (fst g)"
  "rank (select_row db totals g) = RANK totals (snd g)"
  by (simp_all add: select_row_def split: prod.split)

lemma leaderboard_rows_set:
  "set (leaderboard_rows name_le db sd) =
     select_row db (map snd (having_groups db sd)) ` set (having_groups db sd)"
  by (simp add: leaderboard_rows_eq set_sort_by)

lemma leaderboard_rows_count:
  "length (filter (\<lambda>x. t < total_minutes x) (leaderboard_rows name_le db sd)) =
   length (filter (\<lambda>x. t < x) (map snd (having_groups db sd)))"
  by (simp add: leaderboard_rows_eq length_filter_sort_by filter_map o_def select_row_fields)

lemma leaderboard_rows_rank:
  assumes "r \<in> set (leaderboard_rows name_le db sd)"
  shows "rank r = 1 + int (length (filter (\<lambda>x. total_minutes r < total_minutes x)
           (leaderboard_rows name_le db sd)))"
proof -
  let ?gs = "having_groups db sd"
  from assms obtain g where g: "g \<in> set ?gs" and r: "r = select_row db (map snd ?gs) g"
    by (auto simp: leaderboard_rows_set)
  have "snd g \<in> set (map snd ?gs)" using g by simp
  then have "RANK (map snd ?gs) (snd g) = 1 + int (length (filter (\<lambda>x. snd g < x) (map snd ?gs)))"
    by (rule RANK_count)
  then show ?thesis by (simp add: r select_row_fields leaderboard_rows_count)
qed

lemma leaderboard_rows_sorted_totals:
  "sorted_wrt (\<lambda>a b. total_minutes b \<le> total_minutes a) (leaderboard_rows name_le db sd)"
proof -
  let ?le' = "\<lambda>a b :: leaderboard_entry. total_minutes b \<le> total_minutes a"
  have "sorted_wrt ?le' (sort_by (order_by_le name_le) xs)" for xs
  proof (rule sorted_wrt_sort_by [where le = "order_by_le name_le" and le' = ?le'])
    fix a b c :: leaderboard_entry
    show "order_by_le name_le a b \<Longrightarrow> total_minutes b \<le> total_minutes a"
      by (auto simp: order_by_le_def)
    show "\<not> order_by_le name_le a b \<Longrightarrow> total_minutes a \<le> total_minutes b"
      by (auto simp: order_by_le_def)
    show "total_minutes b \<le> total_minutes a \<Longrightarrow> total_minutes c \<le> total_minutes b \<Longrightarrow>
        total_minutes c \<le> total_minutes a"
      by simp
  qed
  then show ?thesis by (simp only: leaderboard_rows_eq)
qed

lemma order_by_le_total:
  assumes "\<forall>a b. name_le a b \<or> name_le b a"
  shows "\<not> order_by_le name_le a b \<Longrightarrow> order_by_le name_le b a"
proof -
  assume n: "\<not> order_by_le name_le a b"
  from assms have "name_le (lb_display_name a) (lb_display_name b) \<or>
      name_le (lb_display_name b) (lb_display_name a)" by blast
  with n show ?thesis unfolding order_by_le_def by linarith
qed

lemma order_by_le_trans:
  assumes "\<forall>a b c. name_le a b \<and> name_le b c \<longrightarrow> name_le a c"
  shows "order_by_le name_le a b \<Longrightarrow> order_by_le name_le b c \<Longrightarrow> order_by_le name_le a c"
proof -
  assume ab: "order_by_le name_le a b" and bc: "order_by_le name_le b c"
  show ?thesis
  proof (cases "total_minutes a = total_minutes b \<and> total_minutes b = total_minutes c")
    case True
    with ab bc have "name_le (lb_display_name a) (lb_display_name b)"
      "name_le (lb_display_name b) (lb_display_name c)"
      by (simp_all add: order_by_le_def)
    with assms have "name_le (lb_display_name a) (lb_display_name c)" by blast
    with True show ?thesis by (simp add: order_by_le_def)
  next
    case False
    with ab bc have "total_minutes c < total_minutes a"
      unfolding order_by_le_def by linarith
    then show ?thesis by (simp add: order_by_le_def)
  qed
qed

lemma leaderboard_rows_sorted:
  assumes "\<forall>a b. name_le a b \<or> name_le b a"
    and "\<forall>a b c. name_le a b \<and> name_le b c \<longrightarrow> name_le a c"
  shows "sorted_wrt (order_by_le name_le) (leaderboard_rows name_le db sd)"
proof -
  have "sorted_wrt (order_by_le name_le) (sort_by (order_by_le name_le) xs)" for xs
  proof (rule sorted_wrt_sort_by [where le = "order_by_le name_le" and le' = "order_by_le name_le"])
    fix a b c :: leaderboard_entry
    show "order_by_le name_le a b \<Longrightarrow> order_by_le name_le a b" .
    show "\<not> order_by_le name_le a b \<Longrightarrow> order_by_le name_le b a"
      by (rule order_by_le_total [OF assms(1)])
    show "order_by_le name_le a b \<Longrightarrow> order_by_le name_le b c \<Longrightarrow> order_by_le name_le a c"
      by (rule order_by_le_trans [OF assms(2)])
  qed
  then show ?thesis by (simp only: leaderboard_rows_eq)
qed

lemma filter_take_sorted_desc:
  assumes "sorted_wrt (\<lambda>a b. f b \<le> (f a :: int)) xs" and "r \<in> set (take n xs)"
  shows "filter (\<lambda>x. f r < f x) (take n xs) = filter (\<lambda>x. f r < f x) xs"
proof -
  have "sorted_wrt (\<lambda>a b. f b \<le> f a) (take n xs @ drop n xs)" using assms(1) by simp
  then have "\<forall>a \<in> set (take n xs). \<forall>b \<in> set (drop n xs). f b \<le> f a"
    unfolding sorted_wrt_append by blast
  with assms(2) have "\<forall>b \<in> set (drop n xs). \<not> f r < f b" by force
  then have "filter (\<lambda>x. f r < f x) (drop n xs) = []" by (simp add: filter_empty_conv)
  moreover have "filter (\<lambda>x. f r < f x) xs =
      filter (\<lambda>x. f r < f x) (take n xs) @ filter (\<lambda>x. f r < f x) (drop n xs)"
    by (simp add: filter_append [symmetric])
  ultimately show ?thesis by simp
qed

text \<open>
  Claim C5. In every result, the rank of a row is 1 plus the number of rows of the
  result with a strictly greater total, rows with equal totals have equal ranks, and
  the rows are in descending order of their totals. Rows with equal totals are in
  ascending order of their display names, in the order of the collation of the
  database, which compares any two texts and is transitive.
\<close>

theorem leaderboard_ranking:
  assumes "get_leaderboard name_le db today period limit_count = Inr rows"
  shows "(\<forall>r \<in> set rows.
            rank r = 1 + int (length (filter (\<lambda>x. total_minutes r < total_minutes x) rows)))
       \<and> (\<forall>a \<in> set rows. \<forall>b \<in> set rows.
            total_minutes a = total_minutes b \<longrightarrow> rank a = rank b)
       \<and> sorted_wrt (\<lambda>a b. total_minutes b \<le> total_minutes a) rows
       \<and> ((\<forall>a b. name_le a b \<or> name_le b a) \<and>
          (\<forall>a b c. name_le a b \<and> name_le b c \<longrightarrow> name_le a c) \<longrightarrow>
            sorted_wrt (\<lambda>a b. total_minutes a = total_minutes b \<longrightarrow>
              name_le (lb_display_name a) (lb_display_name b)) rows)"
proof -
  let ?sd = "get_leaderboard_start_date today period"
  let ?R = "leaderboard_rows name_le db ?sd"
  let ?n = "nat limit_count"
  from assms have rows: "rows = take ?n ?R"
    by (simp add: get_leaderboard_def Let_def split: if_splits)
  have desc: "sorted_wrt (\<lambda>a b. total_minutes b \<le> total_minutes a) ?R"
    by (rule leaderboard_rows_sorted_totals)
  have rk: "\<forall>r \<in> set rows.
      rank r = 1 + int (length (filter (\<lambda>x. total_minutes r < total_minutes x) rows))"
  proof
    fix r assume r: "r \<in> set rows"
    then have "r \<in> set ?R" unfolding rows by (rule in_set_takeD)
    then have "rank r = 1 + int (length (filter (\<lambda>x. total_minutes r < total_minutes x) ?R))"
      by (rule leaderboard_rows_rank)
    moreover have "filter (\<lambda>x. total_minutes r < total_minutes x) (take ?n ?R) =
        filter (\<lambda>x. total_minutes r < total_minutes x) ?R"
      using desc r [unfolded rows] by (rule filter_take_sorted_desc)
    ultimately show "rank r = 1 + int (length (filter (\<lambda>x. total_minutes r < total_minutes x) rows))"
      by (simp add: rows)
  qed
  then have ties: "\<forall>a \<in> set rows. \<forall>b \<in> set rows.
      total_minutes a = total_minutes b \<longrightarrow> rank a = rank b"
    by simp
  have s1: "sorted_wrt (\<lambda>a b. total_minutes b \<le> total_minutes a) rows"
    unfolding rows using desc by (rule sorted_wrt_take)
  have s2: "sorted_wrt (\<lambda>a b. total_minutes a = total_minutes b \<longrightarrow>
      name_le (lb_display_name a) (lb_display_name b)) rows"
    if "\<forall>a b. name_le a b \<or> name_le b a"
      and "\<forall>a b c. name_le a b \<and> name_le b c \<longrightarrow> name_le a c"
  proof -
    have "sorted_wrt (order_by_le name_le) rows"
      unfolding rows using leaderboard_rows_sorted [OF that] by (rule sorted_wrt_take)
    then show ?thesis
      by (rule sorted_wrt_mono_rel [rotated]) (auto simp: order_by_le_def)
  qed
  from rk ties s1 s2 show ?thesis by blast
qed

text \<open>
  Claim C5 on the first three rows of the weekly leaderboard of the example, and on
  three users with equal totals under the two collations: by character codes the
  order is Cat, Zed, amy, without regard to capitals it is amy, Cat, Zed.
\<close>

theorem leaderboard_ranking_witness:
  "get_leaderboard collation_C example_db 5 ''weekly'' 3 = Inr (take 3 example_weekly_rows)
   \<and> map rank (take 3 example_weekly_rows) = [1, 2, 2]
   \<and> map total_minutes (take 3 example_weekly_rows) = [120, 90, 90]
   \<and> map lb_display_name (take 3 example_weekly_rows) = [''Alice'', ''Bob'', ''Carol'']
   \<and> sorted_wrt (\<lambda>a b. total_minutes b \<le> total_minutes a) (take 3 example_weekly_rows)
   \<and> get_leaderboard collation_C example_names_db 5 ''daily'' 100 =
       Inr (example_names_rows [(3, ''Cat''), (1, ''Zed''), (2, ''amy'')])
   \<and> sorted_wrt (\<lambda>a b. collation_C (lb_display_name a) (lb_display_name b))
        (example_names_rows [(3, ''Cat''), (1, ''Zed''), (2, ''amy'')])
   \<and> get_leaderboard collation_ci example_names_db 5 ''daily'' 100 =
       Inr (example_names_rows [(2, ''amy''), (3, ''Cat''), (1, ''Zed'')])
   \<and> sorted_wrt (\<lambda>a b. collation_ci (lb_display_name a) (lb_display_name b))
        (example_names_rows [(2, ''amy''), (3, ''Cat''), (1, ''Zed'')])"
proof -
  note w = leaderboard_ranking [OF example_weekly_3]
  note c = leaderboard_ranking [OF example_names_C]
  note ci = leaderboard_ranking [OF example_names_ci]
  have totals: "sorted_wrt (\<lambda>a b. total_minutes b \<le> total_minutes a) (take 3 example_weekly_rows)"
    by (rule conjunct1 [OF conjunct2 [OF conjunct2 [OF w]]])
  have "sorted_wrt (\<lambda>a b. total_minutes a = total_minutes b \<longrightarrow>
      collation_C (lb_display_name a) (lb_display_name b))
      (example_names_rows [(3, ''Cat''), (1, ''Zed''), (2, ''amy'')])"
    using conjunct2 [OF conjunct2 [OF conjunct2 [OF c]]] collation_C_order by blast
  then have names_C: "sorted_wrt (\<lambda>a b. collation_C (lb_display_name a) (lb_display_name b))
      (example_names_rows [(3, ''Cat''), (1, ''Zed''), (2, ''amy'')])"
    by (simp add: example_names_rows_def)
  have "sorted_wrt (\<lambda>a b. total_minutes a = total_minutes b \<longrightarrow>
      collation_ci (lb_display_name a) (lb_display_name b))
      (example_names_rows [(2, ''amy''), (3, ''Cat''), (1, ''Zed'')])"
    using conjunct2 [OF conjunct2 [OF conjunct2 [OF ci]]] collation_ci_order by blast
  then have names_ci: "sorted_wrt (\<lambda>a b. collation_ci (lb_display_name a) (lb_display_name b))
      (example_names_rows [(2, ''amy''), (3, ''Cat''), (1, ''Zed'')])"
    by (simp add: example_names_rows_def)
  have fields: "map rank (take 3 example_weekly_rows) = [1, 2, 2]"
    "map total_minutes (take 3 example_weekly_rows) = [120, 90, 90]"
    "map lb_display_name (take 3 example_weekly_rows) = [''Alice'', ''Bob'', ''Carol'']"
    by (simp_all add: example_weekly_rows_def)
  from example_weekly_3 fields totals example_names_C names_C example_names_ci names_ci
  show ?thesis by (intro conjI)
qed

lemma sum_minutes_split:
  "sum_list (map minutes (filter P xs)) =
     sum_list (map minutes (filter (\<lambda>l. P l \<and> week_start_date l \<le> today) xs)) +
     sum_list (map minutes (filter (\<lambda>l. P l \<and> today < week_start_date l) xs))"
  by (induction xs) auto

lemma joined_logs_filter:
  "joined_logs stl sd u =
     filter (\<lambda>l. user_id l = u_id u \<and> deleted_at l = None \<and> sd \<le> week_start_date l) stl"
  unfolding joined_logs_def by (rule filter_cong) auto

lemma user_total_sum:
  "user_total db sd u =
     sum_list (map minutes (filter (\<lambda>l. user_id l = u_id u \<and> deleted_at l = None \<and>
        sd \<le> week_start_date l) (screen_time_logs db)))"
  by (simp add: user_total_def COALESCE_def SUM_minutes_def joined_logs_filter)

lemma having_groups_total:
  assumes "g \<in> set (having_groups db sd)"
  shows "snd g = user_total db sd (fst g)" and "fst g \<in> set (users db)"
    and "where_clause db (fst g)" and "0 < snd g"
  using assms by (auto simp: having_groups_def)

lemma having_groups_member:
  assumes "u \<in> set (users db)" and "where_clause db u" and "0 < user_total db sd u"
  shows "(u, user_total db sd u) \<in> set (having_groups db sd)"
  using assms by (auto simp: having_groups_def)

text \<open>
  Claim C4 fails for Frank, whose only entry is for the week starting on day 10, after
  the day 5 of the query: his row has 30 minutes, and the sum over the range that ends
  on day 5 is 0.
\<close>

theorem total_minutes_counterexample:
  "get_leaderboard collation_C example_db 5 ''weekly'' 100 = Inr example_weekly_rows
   \<and> lb_user_id (example_weekly_rows ! 3) = 6
   \<and> total_minutes (example_weekly_rows ! 3) = 30
   \<and> aggregate_spec (screen_time_logs example_db) (get_leaderboard_start_date 5 ''weekly'') 5 6 = 0"
  using example_weekly
  by (simp add: example_weekly_rows_def aggregate_spec_def example_db_def example_entry_def)

text \<open>
  Claim C4, amended. The total of every row of the result is the sum of the minutes of
  that user's non-deleted entries whose period starts on or after the start of the
  window: the query has no upper bound. So the total is the sum over the range from
  the start to the current date plus the minutes of the entries after the current
  date.
\<close>

theorem leaderboard_total_minutes:
  assumes "get_leaderboard name_le db today period limit_count = Inr rows"
  shows "\<forall>r \<in> set rows.
      total_minutes r =
        sum_list (map minutes (filter (\<lambda>l. user_id l = lb_user_id r \<and> deleted_at l = None \<and>
           get_leaderboard_start_date today period \<le> week_start_date l) (screen_time_logs db)))
    \<and> total_minutes r =
        aggregate_spec (screen_time_logs db) (get_leaderboard_start_date today period) today
          (lb_user_id r) +
        sum_list (map minutes (filter (\<lambda>l. user_id l = lb_user_id r \<and> deleted_at l = None \<and>
           get_leaderboard_start_date today period \<le> week_start_date l \<and>
           today < week_start_date l) (screen_time_logs db)))"
proof
  fix r assume "r \<in> set rows"
  let ?sd = "get_leaderboard_start_date today period"
  let ?P = "\<lambda>l. user_id l = lb_user_id r \<and> deleted_at l = None \<and> ?sd \<le> week_start_date l"
  from assms have "rows = take (nat limit_count) (leaderboard_rows name_le db ?sd)"
    by (simp add: get_leaderboard_def Let_def split: if_splits)
  with \<open>r \<in> set rows\<close> have "r \<in> set (leaderboard_rows name_le db ?sd)"
    by (auto dest: in_set_takeD)
  then obtain g where g: "g \<in> set (having_groups db ?sd)"
    and r: "r = select_row db (map snd (having_groups db ?sd)) g"
    by (auto simp: leaderboard_rows_set)
  have "total_minutes r = user_total db ?sd (fst g)"
    using having_groups_total(1) [OF g] by (simp add: r select_row_fields)
  then have direct: "total_minutes r = sum_list (map minutes (filter ?P (screen_time_logs db)))"
    by (simp add: user_total_sum r select_row_fields)
  have "sum_list (map minutes (filter ?P (screen_time_logs db))) =
      aggregate_spec (screen_time_logs db) ?sd today (lb_user_id r) +
      sum_list (map minutes (filter (\<lambda>l. user_id l = lb_user_id r \<and> deleted_at l = None \<and>
         ?sd \<le> week_start_date l \<and> today < week_start_date l) (screen_time_logs db)))"
    using sum_minutes_split [of ?P "screen_time_logs db" today]
    by (simp add: aggregate_spec_def)
  with direct show "total_minutes r = sum_list (map minutes (filter ?P (screen_time_logs db)))
    \<and> total_minutes r =
        aggregate_spec (screen_time_logs db) ?sd today (lb_user_id r) +
        sum_list (map minutes (filter (\<lambda>l. user_id l = lb_user_id r \<and> deleted_at l = None \<and>
           ?sd \<le> week_start_date l \<and> today < week_start_date l) (screen_time_logs db)))"
    by simp
qed

text \<open>Claim C4, amended, on the weekly leaderboard of the example database.\<close>

theorem leaderboard_total_minutes_witness:
  "get_leaderboard collation_C example_db 5 ''weekly'' 100 = Inr example_weekly_rows
   \<and> map total_minutes example_weekly_rows = [120, 90, 90, 30]
   \<and> map (aggregate_spec (screen_time_logs example_db) (get_leaderboard_start_date 5 ''weekly'') 5)
        (map lb_user_id example_weekly_rows) = [120, 90, 90, 0]"
  using leaderboard_total_minutes [OF example_weekly] example_weekly
  by (simp add: example_weekly_rows_def aggregate_spec_def example_db_def example_entry_def
      get_leaderboard_start_date_def extract_dow_def)

lemma user_total_nonneg:
  assumes "\<forall>l \<in> set (screen_time_logs db). screen_time_logs_minutes_check (minutes l)"
  shows "0 \<le> user_total db sd u"
proof -
  have "\<forall>x \<in> set (map minutes (filter (\<lambda>l. user_id l = u_id u \<and> deleted_at l = None \<and>
        sd \<le> week_start_date l) (screen_time_logs db))). 0 \<le> x"
    using assms by (auto simp: screen_time_logs_minutes_check_def)
  then have "0 \<le> sum_list (map minutes (filter (\<lambda>l. user_id l = u_id u \<and> deleted_at l = None \<and>
        sd \<le> week_start_date l) (screen_time_logs db)))"
    by (intro sum_list_nonneg) auto
  then show ?thesis by (simp only: user_total_sum)
qed

lemma leaderboard_rows_ids:
  "lb_user_id ` set (leaderboard_rows name_le db sd) =
     u_id ` {u \<in> set (users db). where_clause db u \<and> 0 < user_total db sd u}"
proof -
  have "lb_user_id ` set (leaderboard_rows name_le db sd) = u_id ` fst ` set (having_groups db sd)"
    by (simp add: leaderboard_rows_set image_image select_row_fields)
  moreover have "fst ` set (having_groups db sd) =
      {u \<in> set (users db). where_clause db u \<and> 0 < user_total db sd u}"
    by (auto simp: having_groups_def image_iff)
  ultimately show ?thesis by simp
qed

lemma length_leaderboard_rows: "length (leaderboard_rows name_le db sd) \<le> length (users db)"
proof -
  have "length (leaderboard_rows name_le db sd) = length (having_groups db sd)"
    by (simp add: leaderboard_rows_eq length_sort_by)
  also have "\<dots> \<le> length (filter (where_clause db) (users db))"
    unfolding having_groups_def by (rule order_trans [OF length_filter_le]) simp
  also have "\<dots> \<le> length (users db)" by (rule length_filter_le)
  finally show ?thesis .
qed

text \<open>
  Claim C6 fails for Erin: her setting is true and her total is 60, and the result
  does not hold her, because her account is deleted.
\<close>

theorem leaderboard_exclusion_counterexample:
  "get_leaderboard collation_C example_db 5 ''weekly'' 100 = Inr example_weekly_rows
   \<and> example_user 5 ''Erin'' (Some 1000) \<in> set (users example_db)
   \<and> 5 \<notin> set (map lb_user_id example_weekly_rows)
   \<and> user_settings example_db 5 = Some True
   \<and> user_total example_db (get_leaderboard_start_date 5 ''weekly'')
        (example_user 5 ''Erin'' (Some 1000)) = 60"
  using example_weekly
  by (simp add: example_weekly_rows_def example_db_def example_user_def example_entry_def
      user_total_sum get_leaderboard_start_date_def extract_dow_def)

text \<open>
  Claim C6, amended. The user ids are distinct (primary key) and the minutes satisfy
  the CHECK constraint. A user in the result is not deleted, has no setting that is
  explicitly false, and has a total other than 0; when LIMIT is at least the number of
  users, so that it cuts nothing, every such user is in the result.
\<close>

theorem leaderboard_exclusion:
  assumes "get_leaderboard name_le db today period limit_count = Inr rows"
    and "distinct (map u_id (users db))"
    and "\<forall>l \<in> set (screen_time_logs db). screen_time_logs_minutes_check (minutes l)"
    and "u \<in> set (users db)"
  shows "(u_id u \<in> lb_user_id ` set rows \<longrightarrow>
            u_deleted_at u = None \<and> user_settings db (u_id u) \<noteq> Some False
          \<and> user_total db (get_leaderboard_start_date today period) u \<noteq> 0)
       \<and> (int (length (users db)) \<le> limit_count \<longrightarrow>
            u_deleted_at u = None \<and> user_settings db (u_id u) \<noteq> Some False
          \<and> user_total db (get_leaderboard_start_date today period) u \<noteq> 0 \<longrightarrow>
            u_id u \<in> lb_user_id ` set rows)"
proof -
  let ?sd = "get_leaderboard_start_date today period"
  let ?R = "leaderboard_rows name_le db ?sd"
  let ?ok = "u_deleted_at u = None \<and> user_settings db (u_id u) \<noteq> Some False
          \<and> user_total db ?sd u \<noteq> 0"
  from assms(1) have rows: "rows = take (nat limit_count) ?R"
    by (simp add: get_leaderboard_def Let_def split: if_splits)
  have inj: "inj_on u_id (set (users db))"
    using assms(2) by (simp add: distinct_map)
  have "u_id u \<in> lb_user_id ` set ?R \<longleftrightarrow> where_clause db u \<and> 0 < user_total db ?sd u"
  proof
    assume "u_id u \<in> lb_user_id ` set ?R"
    then obtain u' where u': "u' \<in> set (users db)" "where_clause db u'"
      "0 < user_total db ?sd u'" "u_id u = u_id u'"
      unfolding leaderboard_rows_ids by auto
    with inj assms(4) have "u' = u" by (auto dest: inj_onD)
    with u' show "where_clause db u \<and> 0 < user_total db ?sd u" by simp
  next
    assume "where_clause db u \<and> 0 < user_total db ?sd u"
    with assms(4) show "u_id u \<in> lb_user_id ` set ?R"
      unfolding leaderboard_rows_ids by auto
  qed
  moreover have "where_clause db u \<longleftrightarrow>
      u_deleted_at u = None \<and> user_settings db (u_id u) \<noteq> Some False"
    by (auto simp: where_clause_def split: option.splits)
  moreover have "0 < user_total db ?sd u \<longleftrightarrow> user_total db ?sd u \<noteq> 0"
    using user_total_nonneg [OF assms(3), of ?sd u] by auto
  ultimately have full: "u_id u \<in> lb_user_id ` set ?R \<longleftrightarrow> ?ok" by simp
  have sub: "set rows \<subseteq> set ?R" unfolding rows by (rule set_take_subset)
  have only_if: "u_id u \<in> lb_user_id ` set rows \<longrightarrow> ?ok"
    using full sub by blast
  have "int (length (users db)) \<le> limit_count \<longrightarrow> rows = ?R"
    using length_leaderboard_rows [of name_le db ?sd] by (simp add: rows)
  with full have "if": "int (length (users db)) \<le> limit_count \<longrightarrow> ?ok \<longrightarrow>
      u_id u \<in> lb_user_id ` set rows"
    by auto
  from only_if "if" show ?thesis by blast
qed

text \<open>
  Claim C6, amended, for Carol (no settings row, 90 minutes, in the result) and Dave
  (setting false, not in the result).
\<close>

theorem leaderboard_exclusion_witness:
  "get_leaderboard collation_C example_db 5 ''weekly'' 100 = Inr example_weekly_rows
   \<and> distinct (map u_id (users example_db))
   \<and> example_user 3 ''Carol'' None \<in> set (users example_db)
   \<and> example_user 4 ''Dave'' None \<in> set (users example_db)
   \<and> int (length (users example_db)) \<le> 100
   \<and> user_settings example_db 3 = None
   \<and> user_settings example_db 4 = Some False
   \<and> 3 \<in> lb_user_id ` set example_weekly_rows
   \<and> 4 \<notin> lb_user_id ` set example_weekly_rows"
  using leaderboard_exclusion [OF example_weekly, of "example_user 3 ''Carol'' None"]
    leaderboard_exclusion [OF example_weekly, of "example_user 4 ''Dave'' None"]
    example_weekly
  by (simp add: example_weekly_rows_def example_db_def example_user_def example_entry_def
      screen_time_logs_minutes_check_def)

end
